theory Spec2Isabelle
  imports Complex_Main
begin

section \<open>Strings, token lists and JavaScript numbers\<close>

text \<open>
  The portfolio site's behaviour layer is a set of small classes (LoadingManager,
  NavigationManager, ThemeManager, AnimationManager, and the older HeaderEffects)
  that react to browser events by writing classes, attributes and styles of DOM
  elements. Each class is modelled as a record of the fields its methods read and
  write; each method is a function from the record to the updated record.
\<close>

subsection \<open>String helpers: startsWith, endsWith, includes\<close>

definition startsWith :: "string \<Rightarrow> string \<Rightarrow> bool" where
  "startsWith s p = (take (length p) s = p)"

definition endsWith :: "string \<Rightarrow> string \<Rightarrow> bool" where
  "endsWith s p = (length p \<le> length s \<and> drop (length s - length p) s = p)"

fun str_includes :: "string \<Rightarrow> string \<Rightarrow> bool" where
  "str_includes [] p = (p = [])"
| "str_includes (c # cs) p = (startsWith (c # cs) p \<or> str_includes cs p)"

subsection \<open>classList: an ordered set of tokens\<close>

type_synonym class_list = "string list"

definition classList_contains :: "class_list \<Rightarrow> string \<Rightarrow> bool" where
  "classList_contains cl c = (c \<in> set cl)"

definition classList_add :: "class_list \<Rightarrow> string \<Rightarrow> class_list" where
  "classList_add cl c = (if c \<in> set cl then cl else cl @ [c])"

definition classList_remove :: "class_list \<Rightarrow> string \<Rightarrow> class_list" where
  "classList_remove cl c = removeAll c cl"

subsection \<open>Numbers\<close>

text \<open>
  A JavaScript number is a finite value, an infinity or NaN. Finite arithmetic is
  taken exact (the rounding of IEEE doubles is left out) and the negative zero is
  identified with zero; the division by zero and the NaN cases, which the scroll
  progress computation can reach, follow IEEE 754 as JavaScript does.
\<close>

datatype jsnum = Num rat | PosInfinity | NegInfinity | NaN

fun js_sub :: "jsnum \<Rightarrow> jsnum \<Rightarrow> jsnum" where
  "js_sub (Num a) (Num b) = Num (a - b)"
| "js_sub (Num a) PosInfinity = NegInfinity"
| "js_sub (Num a) NegInfinity = PosInfinity"
| "js_sub PosInfinity (Num b) = PosInfinity"
| "js_sub PosInfinity NegInfinity = PosInfinity"
| "js_sub NegInfinity (Num b) = NegInfinity"
| "js_sub NegInfinity PosInfinity = NegInfinity"
| "js_sub PosInfinity PosInfinity = NaN"
| "js_sub NegInfinity NegInfinity = NaN"
| "js_sub NaN y = NaN"
| "js_sub x NaN = NaN"

fun js_div :: "jsnum \<Rightarrow> jsnum \<Rightarrow> jsnum" where
  "js_div (Num a) (Num b) =
     (if b = 0 then (if a = 0 then NaN else if 0 < a then PosInfinity else NegInfinity)
      else Num (a / b))"
| "js_div (Num a) PosInfinity = Num 0"
| "js_div (Num a) NegInfinity = Num 0"
| "js_div PosInfinity (Num b) = (if 0 \<le> b then PosInfinity else NegInfinity)"
| "js_div NegInfinity (Num b) = (if 0 \<le> b then NegInfinity else PosInfinity)"
| "js_div PosInfinity PosInfinity = NaN"
| "js_div PosInfinity NegInfinity = NaN"
| "js_div NegInfinity PosInfinity = NaN"
| "js_div NegInfinity NegInfinity = NaN"
| "js_div NaN y = NaN"
| "js_div x NaN = NaN"

fun js_mul :: "jsnum \<Rightarrow> jsnum \<Rightarrow> jsnum" where
  "js_mul (Num a) (Num b) = Num (a * b)"
| "js_mul (Num a) PosInfinity =
     (if a = 0 then NaN else if 0 < a then PosInfinity else NegInfinity)"
| "js_mul (Num a) NegInfinity =
     (if a = 0 then NaN else if 0 < a then NegInfinity else PosInfinity)"
| "js_mul PosInfinity (Num b) =
     (if b = 0 then NaN else if 0 < b then PosInfinity else NegInfinity)"
| "js_mul NegInfinity (Num b) =
     (if b = 0 then NaN else if 0 < b then NegInfinity else PosInfinity)"
| "js_mul PosInfinity PosInfinity = PosInfinity"
| "js_mul PosInfinity NegInfinity = NegInfinity"
| "js_mul NegInfinity PosInfinity = NegInfinity"
| "js_mul NegInfinity NegInfinity = PosInfinity"
| "js_mul NaN y = NaN"
| "js_mul x NaN = NaN"

text \<open>\<open>Math.min\<close>: NaN as soon as one argument is NaN, the smaller one otherwise.\<close>

fun Math_min :: "jsnum \<Rightarrow> jsnum \<Rightarrow> jsnum" where
  "Math_min (Num a) (Num b) = Num (min a b)"
| "Math_min (Num a) PosInfinity = Num a"
| "Math_min (Num a) NegInfinity = NegInfinity"
| "Math_min PosInfinity (Num b) = Num b"
| "Math_min NegInfinity (Num b) = NegInfinity"
| "Math_min PosInfinity PosInfinity = PosInfinity"
| "Math_min PosInfinity NegInfinity = NegInfinity"
| "Math_min NegInfinity PosInfinity = NegInfinity"
| "Math_min NegInfinity NegInfinity = NegInfinity"
| "Math_min NaN y = NaN"
| "Math_min x NaN = NaN"

text \<open>The relational operator \<open>>\<close>: every comparison with NaN is false.\<close>

fun js_gt :: "jsnum \<Rightarrow> jsnum \<Rightarrow> bool" where
  "js_gt (Num a) (Num b) = (b < a)"
| "js_gt (Num a) PosInfinity = False"
| "js_gt (Num a) NegInfinity = True"
| "js_gt PosInfinity (Num b) = True"
| "js_gt PosInfinity NegInfinity = True"
| "js_gt PosInfinity PosInfinity = False"
| "js_gt NegInfinity y = False"
| "js_gt NaN y = False"
| "js_gt x NaN = False"

text \<open>Truthiness of a number (zero and NaN are falsy) and the operator \<open>||\<close>.\<close>

fun js_truthy :: "jsnum \<Rightarrow> bool" where
  "js_truthy (Num a) = (a \<noteq> 0)"
| "js_truthy NaN = False"
| "js_truthy PosInfinity = True"
| "js_truthy NegInfinity = True"

definition js_or :: "jsnum \<Rightarrow> jsnum \<Rightarrow> jsnum" where
  "js_or x y = (if js_truthy x then x else y)"

text \<open>What the claim about the scroll progress asks of a published value.\<close>

fun within_0_100 :: "jsnum \<Rightarrow> bool" where
  "within_0_100 (Num a) = (0 \<le> a \<and> a \<le> 100)"
| "within_0_100 PosInfinity = False"
| "within_0_100 NegInfinity = False"
| "within_0_100 NaN = False"

section \<open>DOM elements\<close>

record element =
  classList :: class_list

text \<open>The scroll progress bar: \<open>styleWidth\<close> is the number the listener puts in
  front of the percent sign of \<open>style.width\<close> (\<open>None\<close>: never assigned).\<close>

record progress_element = element +
  styleWidth :: "jsnum option"

record toggle_element = element +
  ariaExpanded :: "string option"

text \<open>A navigation link: \<open>dataSection\<close> is \<open>getAttribute('data-section')\<close>,
  \<open>None\<close> for \<open>null\<close> (the attribute is absent).\<close>

record nav_link = element +
  dataSection :: "string option"

record loader_element = element +
  styleDisplay :: string

record navbar_element = element +
  styleTransform :: string

section \<open>NavigationManager\<close>

text \<open>The fields the constructor reads from the document; \<open>None\<close> is the \<open>null\<close> of
  \<open>getElementById\<close> and \<open>querySelector\<close>. \<open>bodyOverflow\<close> is
  \<open>document.body.style.overflow\<close>.\<close>

record navigation_manager =
  mobileMenuToggle :: "toggle_element option"
  mobileNav :: "element option"
  navLinks :: "nav_link list"
  scrollProgress :: "progress_element option"
  header :: "element option"
  bodyOverflow :: string

text \<open>What a scroll event reads from the window and the document element. The DOM
  types these attributes as finite numbers.\<close>

record scroll_metrics =
  pageYOffset :: rat
  docScrollTop :: rat
  docScrollHeight :: rat
  innerHeight :: rat

definition openMobileMenu :: "navigation_manager \<Rightarrow> navigation_manager" where
  "openMobileMenu s =
     (case mobileMenuToggle s of
        None \<Rightarrow> s
      | Some t \<Rightarrow>
          (case mobileNav s of
             None \<Rightarrow> s
           | Some n \<Rightarrow>
               s\<lparr>mobileMenuToggle :=
                    Some (t\<lparr>classList := classList_add (classList t) ''active'',
                            ariaExpanded := Some ''true''\<rparr>),
                  mobileNav := Some (n\<lparr>classList := classList_add (classList n) ''active''\<rparr>),
                  bodyOverflow := ''hidden''\<rparr>))"

definition closeMobileMenu :: "navigation_manager \<Rightarrow> navigation_manager" where
  "closeMobileMenu s =
     (case mobileMenuToggle s of
        None \<Rightarrow> s
      | Some t \<Rightarrow>
          (case mobileNav s of
             None \<Rightarrow> s
           | Some n \<Rightarrow>
               s\<lparr>mobileMenuToggle :=
                    Some (t\<lparr>classList := classList_remove (classList t) ''active'',
                            ariaExpanded := Some ''false''\<rparr>),
                  mobileNav := Some (n\<lparr>classList := classList_remove (classList n) ''active''\<rparr>),
                  bodyOverflow := ''''\<rparr>))"

text \<open>
  The document-wide click listener of \<open>initMobileMenu\<close> (closing the menu on a click
  outside the header). \<open>initMobileMenu\<close> returns before registering anything when the
  toggle button is absent. The listener calls \<open>this.header.contains(e.target)\<close> with
  no check of \<open>this.header\<close>: on \<open>null\<close> that is a TypeError. The argument
  \<open>targetInHeader\<close> is the result of \<open>contains\<close> when the header exists.
\<close>

datatype js_error = TypeError

definition outsideClickListener :: "bool \<Rightarrow> navigation_manager \<Rightarrow> js_error + navigation_manager" where
  "outsideClickListener targetInHeader s =
     (case header s of
        None \<Rightarrow> Inl TypeError
      | Some h \<Rightarrow> if \<not> targetInHeader then Inr (closeMobileMenu s) else Inr s)"

definition documentClick :: "bool \<Rightarrow> navigation_manager \<Rightarrow> js_error + navigation_manager" where
  "documentClick targetInHeader s =
     (case mobileMenuToggle s of
        None \<Rightarrow> Inr s
      | Some t \<Rightarrow> outsideClickListener targetInHeader s)"

text \<open>
  \<open>initScrollProgress\<close>: when the progress element is absent the method returns
  before \<open>addEventListener\<close>, so a scroll event reaches no listener of this class and
  the header is not touched either. Otherwise the listener computes the percentage,
  writes \<open>Math.min(scrollPercentage, 100)\<close> into the width and toggles the header's
  class \<open>scrolled\<close> at the threshold 50.
\<close>

definition scrollListener :: "scroll_metrics \<Rightarrow> progress_element \<Rightarrow> navigation_manager \<Rightarrow> navigation_manager" where
  "scrollListener w p s =
     (let scrollTop = js_or (Num (pageYOffset w)) (Num (docScrollTop w));
          scrollHeight = js_sub (Num (docScrollHeight w)) (Num (innerHeight w));
          scrollPercentage = js_mul (js_div scrollTop scrollHeight) (Num 100);
          s1 = s\<lparr>scrollProgress :=
                   Some (p\<lparr>styleWidth := Some (Math_min scrollPercentage (Num 100))\<rparr>)\<rparr>
      in case header s1 of
           None \<Rightarrow> s1
         | Some h \<Rightarrow>
             if js_gt scrollTop (Num 50)
             then s1\<lparr>header := Some (h\<lparr>classList := classList_add (classList h) ''scrolled''\<rparr>)\<rparr>
             else s1\<lparr>header := Some (h\<lparr>classList := classList_remove (classList h) ''scrolled''\<rparr>)\<rparr>)"

definition scrollEvent :: "scroll_metrics \<Rightarrow> navigation_manager \<Rightarrow> navigation_manager" where
  "scrollEvent w s =
     (case scrollProgress s of
        None \<Rightarrow> s
      | Some p \<Rightarrow> scrollListener w p s)"

text \<open>The published progress value and the header's scrolled state, read back.\<close>

definition publishedProgress :: "navigation_manager \<Rightarrow> jsnum option" where
  "publishedProgress s = (case scrollProgress s of None \<Rightarrow> None | Some p \<Rightarrow> styleWidth p)"

definition headerScrolled :: "navigation_manager \<Rightarrow> bool" where
  "headerScrolled s =
     (case header s of None \<Rightarrow> False | Some h \<Rightarrow> classList_contains (classList h) ''scrolled'')"

text \<open>A run of scroll events, recording the header's state after each of them.\<close>

fun scrolledTrace :: "scroll_metrics list \<Rightarrow> navigation_manager \<Rightarrow> bool list" where
  "scrolledTrace [] s = []"
| "scrolledTrace (w # ws) s = headerScrolled (scrollEvent w s) # scrolledTrace ws (scrollEvent w s)"

text \<open>The metrics of a page scrolled to \<open>y\<close>: \<open>pageYOffset\<close> and the document
  element's \<open>scrollTop\<close> both report the position.\<close>

definition scrolledTo :: "rat \<Rightarrow> rat \<Rightarrow> rat \<Rightarrow> scroll_metrics" where
  "scrolledTo y h v = \<lparr>pageYOffset = y, docScrollTop = y, docScrollHeight = h, innerHeight = v\<rparr>"

text \<open>\<open>updateActiveNavLink\<close>: the body of the \<open>forEach\<close>, then the loop over the
  tracked links.\<close>

definition updateLink :: "string \<Rightarrow> nav_link \<Rightarrow> nav_link" where
  "updateLink activeId link =
     (let l1 = link\<lparr>classList := classList_remove (classList link) ''active''\<rparr>
      in if dataSection l1 = Some activeId
         then l1\<lparr>classList := classList_add (classList l1) ''active''\<rparr>
         else l1)"

definition updateActiveNavLink :: "string \<Rightarrow> navigation_manager \<Rightarrow> navigation_manager" where
  "updateActiveNavLink activeId s = s\<lparr>navLinks := map (updateLink activeId) (navLinks s)\<rparr>"

text \<open>The intersection callback of \<open>initActiveNavigation\<close>: an entry is the id of the
  section and its \<open>isIntersecting\<close> flag; entries are processed in order.\<close>

fun activeNavigationCallback :: "(string \<times> bool) list \<Rightarrow> navigation_manager \<Rightarrow> navigation_manager" where
  "activeNavigationCallback [] s = s"
| "activeNavigationCallback ((sectionId, intersecting) # es) s =
     activeNavigationCallback es (if intersecting then updateActiveNavLink sectionId s else s)"

text \<open>A sequence of calls of \<open>updateActiveNavLink\<close>, and the links that are active.\<close>

fun updateActiveNavLinks :: "string list \<Rightarrow> navigation_manager \<Rightarrow> navigation_manager" where
  "updateActiveNavLinks [] s = s"
| "updateActiveNavLinks (i # ids) s = updateActiveNavLinks ids (updateActiveNavLink i s)"

definition isActive :: "nav_link \<Rightarrow> bool" where
  "isActive link = classList_contains (classList link) ''active''"

definition activeLinks :: "navigation_manager \<Rightarrow> nav_link list" where
  "activeLinks s = filter isActive (navLinks s)"

section \<open>HeaderEffects (the older single-file script)\<close>

text \<open>
  The constructor registers the scroll listener only when \<open>.navbar\<close> exists. The
  listener reads \<open>window.scrollY\<close>, sets the class \<open>scrolled\<close> above 100, hides the
  header when scrolling down beyond 200 and remembers the position.
\<close>

record header_effects =
  navbar :: "navbar_element option"
  lastScrollY :: rat

definition headerScrollListener :: "rat \<Rightarrow> header_effects \<Rightarrow> header_effects" where
  "headerScrollListener currentScrollY s =
     (case navbar s of
        None \<Rightarrow> s
      | Some h \<Rightarrow>
          (let h1 = (if 100 < currentScrollY
                     then h\<lparr>classList := classList_add (classList h) ''scrolled''\<rparr>
                     else h\<lparr>classList := classList_remove (classList h) ''scrolled''\<rparr>);
               h2 = (if lastScrollY s < currentScrollY \<and> 200 < currentScrollY
                     then h1\<lparr>styleTransform := ''translateY(-100%)''\<rparr>
                     else h1\<lparr>styleTransform := ''translateY(0)''\<rparr>)
           in s\<lparr>navbar := Some h2, lastScrollY := currentScrollY\<rparr>))"

definition navbarScrolled :: "header_effects \<Rightarrow> bool" where
  "navbarScrolled s =
     (case navbar s of None \<Rightarrow> False | Some h \<Rightarrow> classList_contains (classList h) ''scrolled'')"

fun navbarTrace :: "rat list \<Rightarrow> header_effects \<Rightarrow> bool list" where
  "navbarTrace [] s = []"
| "navbarTrace (y # ys) s =
     navbarScrolled (headerScrollListener y s) # navbarTrace ys (headerScrollListener y s)"

section \<open>AnimationManager\<close>

text \<open>
  Elements are opaque handles. The manager owns the Map \<open>observers\<close> (only the key
  \<open>fadeIn\<close> is ever set; the list holds its keys) and the Set \<open>animatedElements\<close>.
  \<open>fadeInTargets\<close> are the observation targets of the fade-in IntersectionObserver,
  an object the callback's closure keeps reaching after the Map is cleared.
  \<open>classes\<close> is the classList of each element of the document and \<open>animateOnce\<close>
  its \<open>dataset.animateOnce\<close> (\<open>None\<close> for undefined). \<open>visibleAdds\<close> logs every
  call \<open>classList.add('visible')\<close> the callback makes, in order.
\<close>

type_synonym elem = nat

record intersection_entry =
  target :: elem
  isIntersecting :: bool

record animation_manager =
  observers :: "string list"
  fadeInTargets :: "elem set"
  animatedElements :: "elem set"
  classes :: "elem \<Rightarrow> class_list"
  animateOnce :: "elem \<Rightarrow> string option"
  visibleAdds :: "elem list"

text \<open>The body of the \<open>forEach\<close> of the fade-in callback.\<close>

definition fadeInEntry :: "intersection_entry \<Rightarrow> animation_manager \<Rightarrow> animation_manager" where
  "fadeInEntry entry s =
     (if isIntersecting entry \<and> target entry \<notin> animatedElements s
      then
        (let s1 = s\<lparr>classes := (classes s)(target entry :=
                        classList_add (classes s (target entry)) ''visible''),
                    visibleAdds := visibleAdds s @ [target entry]\<rparr>;
             s2 = s1\<lparr>animatedElements := insert (target entry) (animatedElements s1)\<rparr>
         in if animateOnce s2 (target entry) \<noteq> Some ''false''
            then s2\<lparr>fadeInTargets := fadeInTargets s2 - {target entry}\<rparr>
            else s2)
      else s)"

fun fadeInCallback :: "intersection_entry list \<Rightarrow> animation_manager \<Rightarrow> animation_manager" where
  "fadeInCallback [] s = s"
| "fadeInCallback (entry # entries) s = fadeInCallback entries (fadeInEntry entry s)"

text \<open>A sequence of callbacks, each with its batch of entries.\<close>

fun fadeInCallbacks :: "intersection_entry list list \<Rightarrow> animation_manager \<Rightarrow> animation_manager" where
  "fadeInCallbacks [] s = s"
| "fadeInCallbacks (b # bs) s = fadeInCallbacks bs (fadeInCallback b s)"

text \<open>\<open>initFadeInAnimations\<close>, given the elements matching \<open>.fade-in\<close> and the
  document: the observer is stored under \<open>fadeIn\<close> and observes each of them.\<close>

definition initFadeInAnimations ::
  "elem list \<Rightarrow> (elem \<Rightarrow> class_list) \<Rightarrow> (elem \<Rightarrow> string option) \<Rightarrow> animation_manager" where
  "initFadeInAnimations fadeIns cls once =
     \<lparr>observers = [''fadeIn''], fadeInTargets = set fadeIns, animatedElements = {},
      classes = cls, animateOnce = once, visibleAdds = []\<rparr>"

definition observeElement :: "elem \<Rightarrow> animation_manager \<Rightarrow> animation_manager" where
  "observeElement el s =
     (if ''fadeIn'' \<in> set (observers s)
      then s\<lparr>fadeInTargets := insert el (fadeInTargets s)\<rparr>
      else s)"

text \<open>\<open>destroy\<close>: disconnect every observer of the Map, clear the Map and the Set.\<close>

definition destroy :: "animation_manager \<Rightarrow> animation_manager" where
  "destroy s =
     s\<lparr>fadeInTargets := (if ''fadeIn'' \<in> set (observers s) then {} else fadeInTargets s),
       observers := [],
       animatedElements := {}\<rparr>"

text \<open>How often the callback has applied the transition to an element, and the
  targets some entry of a list reports as intersecting.\<close>

definition transitionsOf :: "elem \<Rightarrow> animation_manager \<Rightarrow> nat" where
  "transitionsOf el s = count_list (visibleAdds s) el"

definition intersectingTargets :: "intersection_entry list \<Rightarrow> elem set" where
  "intersectingTargets entries = target ` set (filter isIntersecting entries)"

section \<open>LoadingManager\<close>

text \<open>
  \<open>timers\<close> are the pending \<open>setTimeout\<close> calls (delay in milliseconds and what the
  callback does), oldest first. \<open>overlayShows\<close> counts the calls
  \<open>pageTransition.classList.add('active')\<close> made by \<open>showTransition\<close>.
\<close>

datatype timer_callback = LoaderHidden | TransitionHidden | Navigate string

record loading_manager =
  pageLoader :: "loader_element option"
  pageTransition :: "element option"
  isLoading :: bool
  timers :: "(nat \<times> timer_callback) list"
  overlayShows :: nat

definition hideLoader :: "loading_manager \<Rightarrow> loading_manager" where
  "hideLoader s =
     (case pageLoader s of
        None \<Rightarrow> s
      | Some l \<Rightarrow>
          s\<lparr>pageLoader := Some (l\<lparr>classList := classList_add (classList l) ''fade-out''\<rparr>),
            timers := timers s @ [(600, LoaderHidden)]\<rparr>)"

definition showTransition :: "loading_manager \<Rightarrow> loading_manager" where
  "showTransition s =
     (if isLoading s then s
      else case pageTransition s of
             None \<Rightarrow> s
           | Some t \<Rightarrow>
               s\<lparr>isLoading := True,
                 pageTransition := Some (t\<lparr>classList := classList_add (classList t) ''active''\<rparr>),
                 overlayShows := Suc (overlayShows s)\<rparr>)"

definition hideTransition :: "loading_manager \<Rightarrow> loading_manager" where
  "hideTransition s =
     (case pageTransition s of
        None \<Rightarrow> s
      | Some t \<Rightarrow> s\<lparr>timers := timers s @ [(300, TransitionHidden)]\<rparr>)"

text \<open>
  An anchor as \<open>initTransitions\<close> sees it: \<open>hrefAttr\<close> is the \<open>href\<close> attribute as
  written in the markup (what the CSS attribute selectors match), \<open>href\<close> is the
  property \<open>link.href\<close>, which the browser resolves against the document's URL to an
  absolute URL, and \<open>linkTarget\<close> is \<open>link.target\<close>.
\<close>

record anchor =
  hrefAttr :: "string option"
  href :: string
  linkTarget :: string

definition matchesExternalSelector :: "anchor \<Rightarrow> bool" where
  "matchesExternalSelector a =
     (case hrefAttr a of
        None \<Rightarrow> False
      | Some h \<Rightarrow> startsWith h ''http'' \<or> startsWith h ''mailto:'')"

definition matchesHtmlSelector :: "anchor \<Rightarrow> bool" where
  "matchesHtmlSelector a =
     (case hrefAttr a of
        None \<Rightarrow> False
      | Some h \<Rightarrow> endsWith h ''.html'')"

text \<open>The state of one click: whether \<open>preventDefault\<close> was called, and the
  manager.\<close>

record click_state =
  defaultPrevented :: bool
  manager :: loading_manager

definition interceptClick :: "anchor \<Rightarrow> click_state \<Rightarrow> click_state" where
  "interceptClick a c =
     \<lparr>defaultPrevented = True,
      manager = (showTransition (manager c))
                  \<lparr>timers := timers (showTransition (manager c)) @ [(600, Navigate (href a))]\<rparr>\<rparr>"

text \<open>The listener of the first loop (selector \<open>a[href^="http"], a[href^="mailto:"]\<close>)
  and the second loop's test and listener (selector \<open>a[href$=".html"]\<close>).\<close>

definition externalClickListener :: "anchor \<Rightarrow> click_state \<Rightarrow> click_state" where
  "externalClickListener a c =
     (if linkTarget a \<noteq> ''_blank'' \<and> \<not> startsWith (href a) ''mailto:''
      then interceptClick a c
      else c)"

definition htmlListenerAdded :: "anchor \<Rightarrow> bool" where
  "htmlListenerAdded a =
     (matchesHtmlSelector a \<and> \<not> startsWith (href a) ''http'' \<and> \<not> str_includes (href a) ''#'')"

text \<open>A click on an anchor after \<open>initTransitions\<close>: the listeners registered on it
  run in the order of their registration.\<close>

definition clickAnchor :: "anchor \<Rightarrow> loading_manager \<Rightarrow> click_state" where
  "clickAnchor a s =
     (let c0 = \<lparr>defaultPrevented = False, manager = s\<rparr>;
          c1 = (if matchesExternalSelector a then externalClickListener a c0 else c0);
          c2 = (if htmlListenerAdded a then interceptClick a c1 else c1)
      in c2)"

section \<open>ThemeManager\<close>

text \<open>
  \<open>dataTheme\<close> is the attribute \<open>data-theme\<close> of the document element,
  \<open>storedTheme\<close> the key \<open>theme\<close> of localStorage, \<open>themeIcon\<close> the text of the
  icon element (\<open>None\<close>: no such element) and \<open>dispatched\<close> the payloads of the
  \<open>themechange\<close> events dispatched so far. The two emoji of the source are the
  constructors \<open>SunEmoji\<close> and \<open>MoonEmoji\<close>.
\<close>

datatype icon_text = MarkupText | SunEmoji | MoonEmoji

record theme_manager =
  themeIcon :: "icon_text option"
  dataTheme :: "string option"
  storedTheme :: "string option"
  dispatched :: "string list"

definition updateThemeIcon :: "string \<Rightarrow> theme_manager \<Rightarrow> theme_manager" where
  "updateThemeIcon theme s =
     (case themeIcon s of
        None \<Rightarrow> s
      | Some t \<Rightarrow> s\<lparr>themeIcon := Some (if theme = ''dark'' then SunEmoji else MoonEmoji)\<rparr>)"

definition setTheme :: "string \<Rightarrow> theme_manager \<Rightarrow> theme_manager" where
  "setTheme theme s =
     (let s1 = s\<lparr>dataTheme := Some theme\<rparr>;
          s2 = s1\<lparr>storedTheme := Some theme\<rparr>;
          s3 = updateThemeIcon theme s2
      in s3\<lparr>dispatched := dispatched s3 @ [theme]\<rparr>)"

definition toggleTheme :: "theme_manager \<Rightarrow> theme_manager" where
  "toggleTheme s =
     (let currentTheme = dataTheme s;
          newTheme = (if currentTheme = Some ''dark'' then ''light'' else ''dark'')
      in setTheme newTheme s)"

definition getCurrentTheme :: "theme_manager \<Rightarrow> string" where
  "getCurrentTheme s =
     (case dataTheme s of
        None \<Rightarrow> ''light''
      | Some t \<Rightarrow> if t = [] then ''light'' else t)"

section \<open>Example documents\<close>

text \<open>
  Concrete pages on which the theorems below are evaluated: a page with a desktop
  and a mobile navigation (each section has a link in both), a progress bar and a
  header; the same page with the desktop links only, the first or the second of
  them active; the same page with no
  \<open>.header\<close>; two fade-in elements; a loader with its transition overlay; a theme
  toggle with its icon.
\<close>

definition demoLinks :: "nav_link list" where
  "demoLinks =
     [\<lparr>classList = [''nav-link'', ''active''], dataSection = Some ''home''\<rparr>,
      \<lparr>classList = [''nav-link''], dataSection = Some ''about''\<rparr>,
      \<lparr>classList = [''mobile-nav-link''], dataSection = Some ''home''\<rparr>,
      \<lparr>classList = [''mobile-nav-link''], dataSection = Some ''about''\<rparr>]"

definition demoNav :: navigation_manager where
  "demoNav =
     \<lparr>mobileMenuToggle =
        Some \<lparr>classList = [''mobile-menu-toggle''], ariaExpanded = Some ''false''\<rparr>,
      mobileNav = Some \<lparr>classList = [''mobile-nav'']\<rparr>,
      navLinks = demoLinks,
      scrollProgress = Some \<lparr>classList = [''scroll-progress''], styleWidth = None\<rparr>,
      header = Some \<lparr>classList = [''header'']\<rparr>,
      bodyOverflow = []\<rparr>"

definition desktopNav :: navigation_manager where
  "desktopNav = demoNav\<lparr>navLinks := take 2 demoLinks\<rparr>"

definition aboutActiveNav :: navigation_manager where
  "aboutActiveNav =
     demoNav\<lparr>navLinks :=
       [\<lparr>classList = [''nav-link''], dataSection = Some ''home''\<rparr>,
        \<lparr>classList = [''nav-link'', ''active''], dataSection = Some ''about''\<rparr>]\<rparr>"

definition headerlessNav :: navigation_manager where
  "headerlessNav = demoNav\<lparr>header := None\<rparr>"

definition demoAnimation :: animation_manager where
  "demoAnimation =
     initFadeInAnimations [1, 2] (\<lambda>e. [''fade-in''])
       (\<lambda>e. if e = 2 then Some ''false'' else None)"

definition demoLoading :: loading_manager where
  "demoLoading =
     \<lparr>pageLoader = Some \<lparr>classList = [''page-loader''], styleDisplay = []\<rparr>,
      pageTransition = Some \<lparr>classList = [''page-transition'']\<rparr>,
      isLoading = False, timers = [], overlayShows = 0\<rparr>"

definition demoTheme :: theme_manager where
  "demoTheme =
     \<lparr>themeIcon = Some MoonEmoji, dataTheme = Some ''light'', storedTheme = None,
      dispatched = []\<rparr>"

section \<open>Token lists\<close>

lemma classList_contains_add: "classList_contains (classList_add cl c) c"
  by (simp add: classList_contains_def classList_add_def)

lemma classList_contains_remove: "\<not> classList_contains (classList_remove cl c) c"
  by (simp add: classList_contains_def classList_remove_def)

lemma classList_contains_add_other:
  "c \<noteq> d \<Longrightarrow> classList_contains (classList_add cl c) d = classList_contains cl d"
  by (simp add: classList_contains_def classList_add_def)

section \<open>The scroll listener of NavigationManager\<close>

lemma scrollEvent_absent: "scrollProgress s = None \<Longrightarrow> scrollEvent w s = s"
  by (simp add: scrollEvent_def)

lemma publishedProgress_scrollEvent:
  "scrollProgress s = Some p \<Longrightarrow>
   publishedProgress (scrollEvent w s) =
     Some (Math_min
       (js_mul (js_div (js_or (Num (pageYOffset w)) (Num (docScrollTop w)))
                       (js_sub (Num (docScrollHeight w)) (Num (innerHeight w))))
               (Num 100))
       (Num 100))"
  by (simp add: scrollEvent_def scrollListener_def publishedProgress_def Let_def
      split: option.splits)

text \<open>On a page that is at the top and cannot scroll, the quotient is \<open>0 / 0\<close>.\<close>

lemma progress_zero_height:
  "scrollProgress s = Some p \<Longrightarrow> pageYOffset w = 0 \<Longrightarrow> docScrollTop w = 0 \<Longrightarrow>
   docScrollHeight w = innerHeight w \<Longrightarrow>
   publishedProgress (scrollEvent w s) = Some NaN"
  by (simp add: publishedProgress_scrollEvent js_or_def)

text \<open>Where the document is taller than the viewport and the position is not
  negative, the published value is a number between 0 and 100.\<close>

lemma progress_in_range:
  assumes "scrollProgress s = Some p" and "0 \<le> pageYOffset w" and "0 \<le> docScrollTop w"
    and "innerHeight w < docScrollHeight w"
  shows "\<exists>r. publishedProgress (scrollEvent w s) = Some (Num r) \<and> 0 \<le> r \<and> r \<le> 100"
proof -
  define t where "t = (if pageYOffset w \<noteq> 0 then pageYOffset w else docScrollTop w)"
  define d where "d = docScrollHeight w - innerHeight w"
  have t0: "0 \<le> t" using assms by (simp add: t_def)
  have d0: "0 < d" using assms by (simp add: d_def)
  have "publishedProgress (scrollEvent w s) = Some (Num (min (t / d * 100) 100))"
    using assms(1) d0 by (simp add: publishedProgress_scrollEvent js_or_def t_def d_def)
  moreover have "0 \<le> min (t / d * 100) 100" using t0 d0 by simp
  ultimately show ?thesis by auto
qed

text \<open>The cap of \<open>Math.min\<close> holds on every input: the value is never above 100.\<close>

lemma progress_not_above_100:
  assumes "scrollProgress s = Some p"
  shows "publishedProgress (scrollEvent w s) \<noteq> Some PosInfinity \<and>
         (publishedProgress (scrollEvent w s) = Some (Num r) \<longrightarrow> r \<le> 100)"
  using assms
  by (auto simp add: publishedProgress_scrollEvent js_or_def split: if_splits)

text \<open>
  C1 (the published scroll progress is within [0, 100] and never NaN, also when the
  scrollable height is zero). The listener divides by
  \<open>scrollHeight - innerHeight\<close> with no test of the divisor and caps the result from
  above only. On a page exactly as tall as the viewport, at the top, the value it
  writes in front of the percent sign is NaN: the claim fails on the code there.
\<close>

theorem scroll_progress_NaN_on_unscrollable_page:
  "publishedProgress (scrollEvent (scrolledTo 0 800 800) demoNav) = Some NaN"
  by (rule progress_zero_height) (simp_all add: demoNav_def scrolledTo_def)

lemma headerScrolled_scrollEvent:
  "scrollProgress s = Some p \<Longrightarrow> header s = Some h \<Longrightarrow>
   headerScrolled (scrollEvent w s) =
     js_gt (js_or (Num (pageYOffset w)) (Num (docScrollTop w))) (Num 50)"
  by (simp add: scrollEvent_def scrollListener_def headerScrolled_def Let_def
      classList_contains_add classList_contains_remove)

text \<open>The scrolled state is a function of the current position alone.\<close>

lemma headerScrolled_scrolledTo:
  "scrollProgress s = Some p \<Longrightarrow> header s = Some h \<Longrightarrow>
   headerScrolled (scrollEvent (scrolledTo y dh v) s) = (50 < y)"
  by (simp add: headerScrolled_scrollEvent scrolledTo_def js_or_def)

lemma scrollEvent_keeps:
  "scrollProgress s = Some p \<Longrightarrow> header s = Some h \<Longrightarrow>
   (\<exists>p'. scrollProgress (scrollEvent w s) = Some p') \<and> (\<exists>h'. header (scrollEvent w s) = Some h')"
  by (simp add: scrollEvent_def scrollListener_def Let_def)

lemma scrolledTrace_threshold:
  "scrollProgress s = Some p \<Longrightarrow> header s = Some h \<Longrightarrow>
   scrolledTrace (map (\<lambda>y. scrolledTo y dh v) ys) s = map (\<lambda>y. 50 < y) ys"
proof (induction ys arbitrary: s p h)
  case Nil
  then show ?case by simp
next
  case (Cons y ys)
  from scrollEvent_keeps [OF Cons.prems, of "scrolledTo y dh v"]
  obtain p' h' where "scrollProgress (scrollEvent (scrolledTo y dh v) s) = Some p'"
    and "header (scrollEvent (scrolledTo y dh v) s) = Some h'" by blast
  then have "scrolledTrace (map (\<lambda>y. scrolledTo y dh v) ys) (scrollEvent (scrolledTo y dh v) s)
      = map (\<lambda>y. 50 < y) ys" by (rule Cons.IH)
  then show ?case using Cons.prems by (simp add: headerScrolled_scrolledTo)
qed

text \<open>
  C6, as amended (for the scrollTop sequence 0, 60, 40, 120 the header's scrolled
  state after each sample is false, true, false, true): the third sample, 40, is
  not above the threshold 50, and the listener removes the class again. The
  statement holds for every manager that has its progress element (without it the
  listener is not registered) and its header, and for every page height.
\<close>

theorem header_scrolled_sequence:
  "scrollProgress s = Some p \<Longrightarrow> header s = Some h \<Longrightarrow>
   scrolledTrace [scrolledTo 0 dh v, scrolledTo 60 dh v, scrolledTo 40 dh v, scrolledTo 120 dh v] s
     = [False, True, False, True]"
  using scrolledTrace_threshold [of s p h dh v "[0, 60, 40, 120]"] by simp

theorem header_scrolled_sequence_witness:
  "scrollProgress demoNav = Some \<lparr>classList = [''scroll-progress''], styleWidth = None\<rparr> \<and>
   header demoNav = Some \<lparr>classList = [''header'']\<rparr> \<and>
   scrolledTrace [scrolledTo 0 2000 800, scrolledTo 60 2000 800, scrolledTo 40 2000 800,
                  scrolledTo 120 2000 800] demoNav = [False, True, False, True]"
  using header_scrolled_sequence [of demoNav "\<lparr>classList = [''scroll-progress''], styleWidth = None\<rparr>"
      "\<lparr>classList = [''header'']\<rparr>" 2000 800]
  by (simp add: demoNav_def)

text \<open>The sequence the claim C6 states, false, true, true, true, is not what the
  listener produces on the example page.\<close>

theorem header_scrolled_sequence_counterexample:
  "scrolledTrace [scrolledTo 0 2000 800, scrolledTo 60 2000 800, scrolledTo 40 2000 800,
                  scrolledTo 120 2000 800] demoNav \<noteq> [False, True, True, True]"
proof -
  have "scrolledTrace (map (\<lambda>y. scrolledTo y 2000 800) [0, 60, 40, 120]) demoNav
          = map (\<lambda>y. (50::rat) < y) [0, 60, 40, 120]"
    by (rule scrolledTrace_threshold) (simp_all add: demoNav_def)
  then show ?thesis by simp
qed

text \<open>The older HeaderEffects listener, with its threshold 100, gives false, false,
  false, true on the same sequence: no variant keeps the class at 40.\<close>

lemma navbarTrace_sequence:
  "navbar s = Some h \<Longrightarrow> navbarTrace [0, 60, 40, 120] s = [False, False, False, True]"
  by (simp add: headerScrollListener_def navbarScrolled_def Let_def
      classList_contains_add classList_contains_remove)

section \<open>Active navigation link\<close>

lemma isActive_updateLink: "isActive (updateLink i l) = (dataSection l = Some i)"
  by (simp add: isActive_def updateLink_def Let_def classList_contains_add
      classList_contains_remove)

lemma dataSection_updateLink: "dataSection (updateLink i l) = dataSection l"
  by (simp add: updateLink_def Let_def)

lemma activeLinks_update:
  "activeLinks (updateActiveNavLink i s) =
     map (updateLink i) (filter (\<lambda>l. dataSection l = Some i) (navLinks s))"
  by (simp add: activeLinks_def updateActiveNavLink_def filter_map o_def isActive_updateLink)

lemma dataSections_update:
  "map dataSection (navLinks (updateActiveNavLink i s)) = map dataSection (navLinks s)"
  by (simp add: updateActiveNavLink_def o_def dataSection_updateLink)

lemma updateActiveNavLinks_snoc:
  "updateActiveNavLinks (ids @ [i]) s = updateActiveNavLink i (updateActiveNavLinks ids s)"
  by (induction ids arbitrary: s) simp_all

lemma dataSections_updates:
  "map dataSection (navLinks (updateActiveNavLinks ids s)) = map dataSection (navLinks s)"
  by (induction ids arbitrary: s) (simp_all add: dataSections_update)

lemma filter_section_length:
  "length (filter (\<lambda>l. dataSection l = Some i) ls) = count_list (map dataSection ls) (Some i)"
  by (induction ls) simp_all

lemma section_in_map_filter:
  "Some i \<in> set (map dataSection ls) \<Longrightarrow> i \<in> set (List.map_filter dataSection ls)"
  by (induction ls) (auto split: option.splits)

lemma distinct_sections_at_most_one:
  "distinct (List.map_filter dataSection ls) \<Longrightarrow> count_list (map dataSection ls) (Some i) \<le> 1"
proof (induction ls)
  case Nil
  then show ?case by simp
next
  case (Cons a ls)
  show ?case
  proof (cases "dataSection a = Some i")
    case True
    with Cons.prems have "i \<notin> set (List.map_filter dataSection ls)"
      by simp
    then have "Some i \<notin> set (map dataSection ls)"
      using section_in_map_filter by blast
    then have "count_list (map dataSection ls) (Some i) = 0"
      by (simp add: count_list_0_iff)
    with True show ?thesis by simp
  next
    case False
    with Cons show ?thesis
      by (cases "dataSection a") simp_all
  qed
qed

text \<open>After a sequence of calls only the last id matters: the active links are the
  links of its section.\<close>

lemma active_after_updates:
  assumes "ids \<noteq> []"
  shows "activeLinks (updateActiveNavLinks ids s) =
     map (updateLink (last ids))
       (filter (\<lambda>l. dataSection l = Some (last ids))
          (navLinks (updateActiveNavLinks (butlast ids) s)))"
proof -
  from assms have "ids = butlast ids @ [last ids]" by simp
  then have "updateActiveNavLinks ids s =
      updateActiveNavLink (last ids) (updateActiveNavLinks (butlast ids) s)"
    by (metis updateActiveNavLinks_snoc)
  then show ?thesis by (simp only: activeLinks_update)
qed

text \<open>
  C2, as amended (after every non-empty sequence of calls of
  \<open>updateActiveNavLink\<close>, every tracked link that carries \<open>active\<close> has the
  \<open>data-section\<close> of the last id, so at most one section is marked; at most one
  link is active when the \<open>data-section\<close> values of the tracked links are pairwise
  distinct). The tracked collection holds the desktop and the mobile links, and the
  loop activates every link of the section.
\<close>

theorem at_most_one_active_section:
  assumes "ids \<noteq> []"
  shows "list_all (\<lambda>l. dataSection l = Some (last ids))
           (activeLinks (updateActiveNavLinks ids s)) \<and>
         (distinct (List.map_filter dataSection (navLinks s)) \<longrightarrow>
            length (activeLinks (updateActiveNavLinks ids s)) \<le> 1)"
proof -
  let ?t = "updateActiveNavLinks (butlast ids) s"
  have a: "activeLinks (updateActiveNavLinks ids s) =
     map (updateLink (last ids)) (filter (\<lambda>l. dataSection l = Some (last ids)) (navLinks ?t))"
    using assms by (rule active_after_updates)
  have "list_all (\<lambda>l. dataSection l = Some (last ids)) (activeLinks (updateActiveNavLinks ids s))"
    by (simp add: a list_all_iff dataSection_updateLink)
  moreover have "length (activeLinks (updateActiveNavLinks ids s)) \<le> 1"
    if d: "distinct (List.map_filter dataSection (navLinks s))"
  proof -
    have "length (activeLinks (updateActiveNavLinks ids s)) =
        count_list (map dataSection (navLinks ?t)) (Some (last ids))"
      by (simp add: a filter_section_length)
    also have "\<dots> = count_list (map dataSection (navLinks s)) (Some (last ids))"
      by (simp only: dataSections_updates)
    also have "\<dots> \<le> 1" using d by (rule distinct_sections_at_most_one)
    finally show ?thesis .
  qed
  ultimately show ?thesis by blast
qed

theorem at_most_one_active_section_witness:
  "[''home'', ''about''] \<noteq> ([] :: string list) \<and>
   distinct (List.map_filter dataSection (navLinks desktopNav)) \<and>
   list_all (\<lambda>l. dataSection l = Some ''about'')
     (activeLinks (updateActiveNavLinks [''home'', ''about''] desktopNav)) \<and>
   length (activeLinks (updateActiveNavLinks [''home'', ''about''] desktopNav)) \<le> 1"
proof -
  have n: "[''home'', ''about''] \<noteq> ([] :: string list)" by simp
  have d: "distinct (List.map_filter dataSection (navLinks desktopNav))"
    by (simp add: desktopNav_def demoNav_def demoLinks_def)
  from at_most_one_active_section [OF n, of desktopNav] d
  have "list_all (\<lambda>l. dataSection l = Some (last [''home'', ''about'']))
          (activeLinks (updateActiveNavLinks [''home'', ''about''] desktopNav))"
    and "length (activeLinks (updateActiveNavLinks [''home'', ''about''] desktopNav)) \<le> 1"
    by blast+
  with n d show ?thesis by simp
qed

text \<open>On the page with both navigations, one call leaves two links active: the
  desktop and the mobile link of the section. The claim C2 as stated fails there.\<close>

theorem two_active_links_counterexample:
  "activeLinks (updateActiveNavLinks [''about''] demoNav) =
     [\<lparr>classList = [''nav-link'', ''active''], dataSection = Some ''about''\<rparr>,
      \<lparr>classList = [''mobile-nav-link'', ''active''], dataSection = Some ''about''\<rparr>]"
  by (simp add: activeLinks_def updateActiveNavLink_def updateLink_def isActive_def Let_def
      classList_contains_def classList_add_def classList_remove_def demoNav_def demoLinks_def)

text \<open>
  C10 (after \<open>updateActiveNavLink(id)\<close> exactly the tracked links whose
  \<open>data-section\<close> equals \<open>id\<close> carry \<open>active\<close>; no link is active when none
  matches; the result does not depend on which links were active before). The last
  part reads: two managers whose links agree once \<open>active\<close> is removed from each
  end with the same links.
\<close>

theorem updateActiveNavLink_post_state:
  "(\<forall>l \<in> set (navLinks (updateActiveNavLink i s)). isActive l = (dataSection l = Some i)) \<and>
   map dataSection (navLinks (updateActiveNavLink i s)) = map dataSection (navLinks s) \<and>
   ((\<forall>l \<in> set (navLinks s). dataSection l \<noteq> Some i) \<longrightarrow>
      activeLinks (updateActiveNavLink i s) = []) \<and>
   (map (\<lambda>l. l\<lparr>classList := classList_remove (classList l) ''active''\<rparr>) (navLinks s) =
    map (\<lambda>l. l\<lparr>classList := classList_remove (classList l) ''active''\<rparr>) (navLinks s') \<longrightarrow>
      navLinks (updateActiveNavLink i s) = navLinks (updateActiveNavLink i s'))"
proof -
  have 1: "\<forall>l \<in> set (navLinks (updateActiveNavLink i s)). isActive l = (dataSection l = Some i)"
    by (auto simp add: updateActiveNavLink_def isActive_updateLink dataSection_updateLink)
  have 2: "map dataSection (navLinks (updateActiveNavLink i s)) = map dataSection (navLinks s)"
    by (rule dataSections_update)
  have 3: "activeLinks (updateActiveNavLink i s) = []"
    if "\<forall>l \<in> set (navLinks s). dataSection l \<noteq> Some i"
    using that by (simp add: activeLinks_update filter_empty_conv)
  have 4: "navLinks (updateActiveNavLink i s) = navLinks (updateActiveNavLink i s')"
    if e: "map (\<lambda>l. l\<lparr>classList := classList_remove (classList l) ''active''\<rparr>) (navLinks s) =
           map (\<lambda>l. l\<lparr>classList := classList_remove (classList l) ''active''\<rparr>) (navLinks s')"
  proof -
    let ?c = "\<lambda>l::nav_link. l\<lparr>classList := classList_remove (classList l) ''active''\<rparr>"
    let ?f = "\<lambda>l1::nav_link. if dataSection l1 = Some i
                then l1\<lparr>classList := classList_add (classList l1) ''active''\<rparr> else l1"
    have u: "updateLink i = ?f \<circ> ?c"
      by (rule ext) (simp add: updateLink_def Let_def)
    have "map (updateLink i) (navLinks s) = map ?f (map ?c (navLinks s))"
      by (simp only: u map_map)
    also have "\<dots> = map ?f (map ?c (navLinks s'))" by (simp only: e)
    also have "\<dots> = map (updateLink i) (navLinks s')" by (simp only: u map_map)
    finally show ?thesis by (simp add: updateActiveNavLink_def)
  qed
  from 1 2 3 4 show ?thesis by blast
qed

theorem updateActiveNavLink_post_state_witness:
  "list_all (\<lambda>l. isActive l = (dataSection l = Some ''about''))
     (navLinks (updateActiveNavLink ''about'' desktopNav)) \<and>
   list_all (\<lambda>l. dataSection l \<noteq> Some ''contact'') (navLinks desktopNav) \<and>
   activeLinks (updateActiveNavLink ''contact'' desktopNav) = [] \<and>
   map (\<lambda>l. l\<lparr>classList := classList_remove (classList l) ''active''\<rparr>) (navLinks desktopNav) =
   map (\<lambda>l. l\<lparr>classList := classList_remove (classList l) ''active''\<rparr>) (navLinks aboutActiveNav) \<and>
   navLinks desktopNav \<noteq> navLinks aboutActiveNav \<and>
   navLinks (updateActiveNavLink ''about'' desktopNav) =
     navLinks (updateActiveNavLink ''about'' aboutActiveNav)"
proof -
  have h3: "\<forall>l \<in> set (navLinks desktopNav). dataSection l \<noteq> Some ''contact''"
    by (simp add: desktopNav_def demoNav_def demoLinks_def)
  have h4: "map (\<lambda>l. l\<lparr>classList := classList_remove (classList l) ''active''\<rparr>) (navLinks desktopNav) =
            map (\<lambda>l. l\<lparr>classList := classList_remove (classList l) ''active''\<rparr>) (navLinks aboutActiveNav)"
    by (simp add: desktopNav_def aboutActiveNav_def demoNav_def demoLinks_def
        classList_remove_def)
  have d: "navLinks desktopNav \<noteq> navLinks aboutActiveNav"
    by (simp add: desktopNav_def aboutActiveNav_def demoNav_def demoLinks_def)
  note about = updateActiveNavLink_post_state [of "''about''" desktopNav aboutActiveNav]
  note contact = updateActiveNavLink_post_state [of "''contact''" desktopNav desktopNav]
  from about have c1: "list_all (\<lambda>l. isActive l = (dataSection l = Some ''about''))
     (navLinks (updateActiveNavLink ''about'' desktopNav))"
    by (simp add: list_all_iff)
  from contact h3 have c3: "activeLinks (updateActiveNavLink ''contact'' desktopNav) = []"
    by blast
  from about h4 have c4: "navLinks (updateActiveNavLink ''about'' desktopNav) =
     navLinks (updateActiveNavLink ''about'' aboutActiveNav)"
    by blast
  from c1 h3 c3 h4 d c4 show ?thesis by (simp add: list_all_iff)
qed

section \<open>The fade-in callback of AnimationManager\<close>

lemma intersectingTargets_Nil: "intersectingTargets [] = {}"
  by (simp add: intersectingTargets_def)

lemma intersectingTargets_Cons:
  "intersectingTargets (e # es) =
     (if isIntersecting e then insert (target e) (intersectingTargets es)
      else intersectingTargets es)"
  by (simp add: intersectingTargets_def)

subsection \<open>One entry\<close>

lemma animated_fadeInEntry:
  "animatedElements (fadeInEntry e s) =
     (if isIntersecting e then insert (target e) (animatedElements s) else animatedElements s)"
  by (auto simp add: fadeInEntry_def Let_def)

lemma classes_fadeInEntry:
  "classes (fadeInEntry e s) x =
     (if isIntersecting e \<and> target e \<notin> animatedElements s \<and> x = target e
      then classList_add (classes s x) ''visible'' else classes s x)"
  by (simp add: fadeInEntry_def Let_def)

lemma visibleAdds_fadeInEntry:
  "visibleAdds (fadeInEntry e s) =
     visibleAdds s @ (if isIntersecting e \<and> target e \<notin> animatedElements s then [target e] else [])"
  by (simp add: fadeInEntry_def Let_def)

lemma transitionsOf_fadeInEntry:
  "transitionsOf x (fadeInEntry e s) =
     transitionsOf x s +
       (if isIntersecting e \<and> target e \<notin> animatedElements s \<and> x = target e then 1 else 0)"
  by (simp add: transitionsOf_def visibleAdds_fadeInEntry)

lemma animateOnce_fadeInEntry: "animateOnce (fadeInEntry e s) = animateOnce s"
  by (simp add: fadeInEntry_def Let_def)

lemma fadeInTargets_fadeInEntry:
  "fadeInTargets (fadeInEntry e s) =
     (if isIntersecting e \<and> target e \<notin> animatedElements s \<and>
         animateOnce s (target e) \<noteq> Some ''false''
      then fadeInTargets s - {target e} else fadeInTargets s)"
  by (simp add: fadeInEntry_def Let_def)

lemma fadeInEntry_idle:
  "\<not> isIntersecting e \<or> target e \<in> animatedElements s \<Longrightarrow> fadeInEntry e s = s"
  by (auto simp add: fadeInEntry_def)

subsection \<open>A batch of entries, by induction on the batch\<close>

lemma animated_fadeInCallback:
  "animatedElements (fadeInCallback es s) = animatedElements s \<union> intersectingTargets es"
  by (induction es arbitrary: s)
     (auto simp add: intersectingTargets_Nil intersectingTargets_Cons animated_fadeInEntry)

lemma classes_fadeInCallback:
  "classes (fadeInCallback es s) x =
     (if x \<in> intersectingTargets es \<and> x \<notin> animatedElements s
      then classList_add (classes s x) ''visible'' else classes s x)"
proof (induction es arbitrary: s)
  case Nil
  then show ?case by (simp add: intersectingTargets_Nil)
next
  case (Cons e es)
  show ?case
    by (auto simp add: Cons.IH intersectingTargets_Cons animated_fadeInEntry classes_fadeInEntry)
qed

lemma transitionsOf_fadeInCallback:
  "transitionsOf x (fadeInCallback es s) =
     transitionsOf x s + (if x \<in> intersectingTargets es \<and> x \<notin> animatedElements s then 1 else 0)"
proof (induction es arbitrary: s)
  case Nil
  then show ?case by (simp add: intersectingTargets_Nil)
next
  case (Cons e es)
  show ?case
    by (auto simp add: Cons.IH intersectingTargets_Cons animated_fadeInEntry
        transitionsOf_fadeInEntry)
qed

text \<open>The callback only ever calls \<open>unobserve\<close>: it submits nothing to the observer.\<close>

lemma fadeInTargets_fadeInCallback_subset:
  "fadeInTargets (fadeInCallback es s) \<subseteq> fadeInTargets s"
proof (induction es arbitrary: s)
  case Nil
  then show ?case by simp
next
  case (Cons e es)
  have "fadeInTargets (fadeInCallback es (fadeInEntry e s)) \<subseteq> fadeInTargets (fadeInEntry e s)"
    by (rule Cons.IH)
  also have "\<dots> \<subseteq> fadeInTargets s" by (auto simp add: fadeInTargets_fadeInEntry)
  finally show ?case by simp
qed

lemma unobserved_after_fadeInCallback:
  "x \<in> intersectingTargets es \<Longrightarrow> x \<notin> animatedElements s \<Longrightarrow>
   animateOnce s x \<noteq> Some ''false'' \<Longrightarrow> x \<notin> fadeInTargets (fadeInCallback es s)"
proof (induction es arbitrary: s)
  case Nil
  then show ?case by (simp add: intersectingTargets_Nil)
next
  case (Cons e es)
  show ?case
  proof (cases "isIntersecting e \<and> target e = x")
    case True
    with Cons.prems have "x \<notin> fadeInTargets (fadeInEntry e s)"
      by (simp add: fadeInTargets_fadeInEntry)
    with fadeInTargets_fadeInCallback_subset [of es "fadeInEntry e s"] show ?thesis
      by auto
  next
    case False
    with Cons.prems have "x \<in> intersectingTargets es"
      and "x \<notin> animatedElements (fadeInEntry e s)"
      and "animateOnce (fadeInEntry e s) x \<noteq> Some ''false''"
      by (auto simp add: intersectingTargets_Cons animated_fadeInEntry animateOnce_fadeInEntry
          split: if_splits)
    then have "x \<notin> fadeInTargets (fadeInCallback es (fadeInEntry e s))" by (rule Cons.IH)
    then show ?thesis by simp
  qed
qed

lemma fadeInCallback_idle:
  "intersectingTargets es \<subseteq> animatedElements s \<Longrightarrow> fadeInCallback es s = s"
proof (induction es arbitrary: s)
  case Nil
  then show ?case by simp
next
  case (Cons e es)
  from Cons.prems have "fadeInEntry e s = s"
    by (intro fadeInEntry_idle) (auto simp add: intersectingTargets_Cons split: if_splits)
  moreover from Cons.prems have "intersectingTargets es \<subseteq> animatedElements s"
    by (auto simp add: intersectingTargets_Cons split: if_splits)
  ultimately show ?case using Cons.IH by simp
qed

text \<open>A sequence of callbacks is one callback on the concatenated batches.\<close>

lemma fadeInCallbacks_concat: "fadeInCallbacks bs s = fadeInCallback (concat bs) s"
proof (induction bs arbitrary: s)
  case Nil
  then show ?case by simp
next
  case (Cons b bs)
  have "fadeInCallback (b @ cs) t = fadeInCallback cs (fadeInCallback b t)" for cs t
    by (induction b arbitrary: t) simp_all
  then show ?case using Cons.IH by simp
qed

text \<open>
  C3 (an element with animate-once not disabled becomes visible exactly once). Let
  \<open>el\<close> be not yet animated and let the batch \<open>b\<close> report it intersecting. The
  callback on \<open>b\<close> adds the class, records the element, applies the transition
  once and unobserves the element. After any further callbacks \<open>bs\<close>, whatever they
  report, the transition count of \<open>el\<close> is still one more than at the start, its
  class list is what the first callback left, and it is not among the observer's
  targets.
\<close>

theorem fade_in_exactly_once:
  assumes "el \<notin> animatedElements s" and "animateOnce s el \<noteq> Some ''false''"
    and "el \<in> intersectingTargets b"
  shows "classList_contains (classes (fadeInCallback b s) el) ''visible'' \<and>
         el \<in> animatedElements (fadeInCallback b s) \<and>
         transitionsOf el (fadeInCallback b s) = Suc (transitionsOf el s) \<and>
         el \<notin> fadeInTargets (fadeInCallback b s) \<and>
         transitionsOf el (fadeInCallbacks bs (fadeInCallback b s)) = Suc (transitionsOf el s) \<and>
         classes (fadeInCallbacks bs (fadeInCallback b s)) el = classes (fadeInCallback b s) el \<and>
         el \<in> animatedElements (fadeInCallbacks bs (fadeInCallback b s)) \<and>
         el \<notin> fadeInTargets (fadeInCallbacks bs (fadeInCallback b s))"
proof -
  let ?s1 = "fadeInCallback b s"
  let ?s2 = "fadeInCallbacks bs ?s1"
  have c1: "classList_contains (classes ?s1 el) ''visible''"
    using assms by (simp add: classes_fadeInCallback classList_contains_add)
  have a1: "el \<in> animatedElements ?s1"
    using assms by (simp add: animated_fadeInCallback)
  have t1: "transitionsOf el ?s1 = Suc (transitionsOf el s)"
    using assms by (simp add: transitionsOf_fadeInCallback)
  have o1: "el \<notin> fadeInTargets ?s1"
    using assms(3,1,2) by (rule unobserved_after_fadeInCallback)
  have t2: "transitionsOf el ?s2 = Suc (transitionsOf el s)"
    using a1 t1 by (simp add: fadeInCallbacks_concat transitionsOf_fadeInCallback)
  have c2: "classes ?s2 el = classes ?s1 el"
    using a1 by (simp add: fadeInCallbacks_concat classes_fadeInCallback)
  have a2: "el \<in> animatedElements ?s2"
    using a1 by (simp add: fadeInCallbacks_concat animated_fadeInCallback)
  have o2: "el \<notin> fadeInTargets ?s2"
    using o1 fadeInTargets_fadeInCallback_subset [of "concat bs" ?s1]
    by (auto simp add: fadeInCallbacks_concat)
  from c1 a1 t1 o1 t2 c2 a2 o2 show ?thesis by blast
qed

theorem fade_in_exactly_once_witness:
  "1 \<notin> animatedElements demoAnimation \<and>
   animateOnce demoAnimation 1 \<noteq> Some ''false'' \<and>
   1 \<in> intersectingTargets [\<lparr>target = 1, isIntersecting = True\<rparr>] \<and>
   1 \<in> fadeInTargets demoAnimation \<and>
   transitionsOf 1 demoAnimation = 0 \<and>
   transitionsOf 1
     (fadeInCallbacks
        [[\<lparr>target = 1, isIntersecting = True\<rparr>],
         [\<lparr>target = 2, isIntersecting = True\<rparr>, \<lparr>target = 1, isIntersecting = True\<rparr>]]
        (fadeInCallback [\<lparr>target = 1, isIntersecting = True\<rparr>] demoAnimation)) = 1 \<and>
   1 \<notin> fadeInTargets
     (fadeInCallbacks
        [[\<lparr>target = 1, isIntersecting = True\<rparr>],
         [\<lparr>target = 2, isIntersecting = True\<rparr>, \<lparr>target = 1, isIntersecting = True\<rparr>]]
        (fadeInCallback [\<lparr>target = 1, isIntersecting = True\<rparr>] demoAnimation))"
proof -
  have h1: "1 \<notin> animatedElements demoAnimation"
    by (simp add: demoAnimation_def initFadeInAnimations_def)
  have h2: "animateOnce demoAnimation 1 \<noteq> Some ''false''"
    by (simp add: demoAnimation_def initFadeInAnimations_def)
  have h3: "1 \<in> intersectingTargets [\<lparr>target = 1, isIntersecting = True\<rparr>]"
    by (simp add: intersectingTargets_def)
  have o: "1 \<in> fadeInTargets demoAnimation"
    by (simp add: demoAnimation_def initFadeInAnimations_def)
  have z: "transitionsOf 1 demoAnimation = 0"
    by (simp add: transitionsOf_def demoAnimation_def initFadeInAnimations_def)
  note t = fade_in_exactly_once [OF h1 h2 h3,
      of "[[\<lparr>target = 1, isIntersecting = True\<rparr>],
           [\<lparr>target = 2, isIntersecting = True\<rparr>, \<lparr>target = 1, isIntersecting = True\<rparr>]]"]
  from t z have c: "transitionsOf 1
     (fadeInCallbacks
        [[\<lparr>target = 1, isIntersecting = True\<rparr>],
         [\<lparr>target = 2, isIntersecting = True\<rparr>, \<lparr>target = 1, isIntersecting = True\<rparr>]]
        (fadeInCallback [\<lparr>target = 1, isIntersecting = True\<rparr>] demoAnimation)) = 1"
    by (simp only: One_nat_def)
  from t h1 h2 h3 o z c show ?thesis by blast
qed

section \<open>Teardown of AnimationManager\<close>

lemma destroy_fields:
  "animatedElements (destroy s) = {}" "classes (destroy s) = classes s"
  "observers (destroy s) = []" "visibleAdds (destroy s) = visibleAdds s"
  "animateOnce (destroy s) = animateOnce s"
  by (simp_all add: destroy_def)

lemma destroy_idempotent: "destroy (destroy s) = destroy s"
  by (simp add: destroy_def)

text \<open>After \<open>destroy\<close> the Map has no observer left, so \<open>observeElement\<close> does
  nothing.\<close>

lemma observeElement_after_destroy: "observeElement el (destroy s) = destroy s"
  by (simp add: observeElement_def destroy_fields)

text \<open>
  C5, as amended (after \<open>destroy()\<close> a stale intersection callback does not throw
  and submits nothing to the observer; an element that no entry reports
  intersecting keeps its classes, and a callback with no intersecting entry changes
  nothing; but every target reported intersecting gets the class \<open>visible\<close> and is
  recorded as animated, since the cleared set no longer guards it). The callback
  body has no operation that can throw on an element; the model is a total
  function.
\<close>

theorem stale_callback_after_destroy:
  "animatedElements (fadeInCallback es (destroy s)) = intersectingTargets es \<and>
   (\<forall>x. x \<notin> intersectingTargets es \<longrightarrow>
      classes (fadeInCallback es (destroy s)) x = classes s x) \<and>
   (\<forall>x \<in> intersectingTargets es.
      classes (fadeInCallback es (destroy s)) x = classList_add (classes s x) ''visible'') \<and>
   fadeInTargets (fadeInCallback es (destroy s)) \<subseteq> fadeInTargets (destroy s) \<and>
   (intersectingTargets es = {} \<longrightarrow> fadeInCallback es (destroy s) = destroy s)"
proof -
  have "fadeInCallback es (destroy s) = destroy s" if "intersectingTargets es = {}"
    using that by (intro fadeInCallback_idle) simp
  then show ?thesis
    by (simp add: animated_fadeInCallback classes_fadeInCallback destroy_fields
        fadeInTargets_fadeInCallback_subset)
qed

theorem stale_callback_after_destroy_witness:
  "intersectingTargets [\<lparr>target = 1, isIntersecting = True\<rparr>, \<lparr>target = 2, isIntersecting = False\<rparr>]
     = {1} \<and>
   animatedElements
     (fadeInCallback [\<lparr>target = 1, isIntersecting = True\<rparr>, \<lparr>target = 2, isIntersecting = False\<rparr>]
        (destroy demoAnimation)) = {1} \<and>
   classes
     (fadeInCallback [\<lparr>target = 1, isIntersecting = True\<rparr>, \<lparr>target = 2, isIntersecting = False\<rparr>]
        (destroy demoAnimation)) 2 = [''fade-in''] \<and>
   classes
     (fadeInCallback [\<lparr>target = 1, isIntersecting = True\<rparr>, \<lparr>target = 2, isIntersecting = False\<rparr>]
        (destroy demoAnimation)) 1 = [''fade-in'', ''visible''] \<and>
   intersectingTargets [\<lparr>target = 2, isIntersecting = False\<rparr>] = {} \<and>
   fadeInCallback [\<lparr>target = 2, isIntersecting = False\<rparr>] (destroy demoAnimation)
     = destroy demoAnimation"
proof -
  let ?es = "[\<lparr>target = 1, isIntersecting = True\<rparr>, \<lparr>target = 2, isIntersecting = False\<rparr>]"
  have i: "intersectingTargets ?es = {1}"
    by (simp add: intersectingTargets_def)
  have j: "intersectingTargets [\<lparr>target = 2, isIntersecting = False\<rparr>] = {}"
    by (simp add: intersectingTargets_def)
  have c: "classes demoAnimation 1 = [''fade-in'']" "classes demoAnimation 2 = [''fade-in'']"
    by (simp_all add: demoAnimation_def initFadeInAnimations_def)
  note a = stale_callback_after_destroy [of ?es demoAnimation]
  note b = stale_callback_after_destroy [of "[\<lparr>target = 2, isIntersecting = False\<rparr>]" demoAnimation]
  from a i have "animatedElements (fadeInCallback ?es (destroy demoAnimation)) = {1}"
    by simp
  moreover from a i c have "classes (fadeInCallback ?es (destroy demoAnimation)) 2 = [''fade-in'']"
    by simp
  moreover from a i c
  have "classes (fadeInCallback ?es (destroy demoAnimation)) 1 = [''fade-in'', ''visible'']"
    by (simp add: classList_add_def)
  moreover from b j
  have "fadeInCallback [\<lparr>target = 2, isIntersecting = False\<rparr>] (destroy demoAnimation)
          = destroy demoAnimation"
    by blast
  ultimately show ?thesis using i j by blast
qed

text \<open>The claim C5 as stated fails: element 1 has only the class \<open>fade-in\<close> when the
  manager is destroyed; a stale callback that reports it intersecting adds
  \<open>visible\<close> and records the element in the set \<open>destroy\<close> has just cleared.\<close>

theorem stale_callback_mutates_counterexample:
  "classes (destroy demoAnimation) 1 = [''fade-in''] \<and>
   animatedElements (destroy demoAnimation) = {} \<and>
   classes (fadeInCallback [\<lparr>target = 1, isIntersecting = True\<rparr>] (destroy demoAnimation)) 1
     = [''fade-in'', ''visible''] \<and>
   animatedElements (fadeInCallback [\<lparr>target = 1, isIntersecting = True\<rparr>] (destroy demoAnimation))
     = {1}"
  by (simp add: destroy_def demoAnimation_def initFadeInAnimations_def fadeInEntry_def Let_def
      classList_add_def)

section \<open>LoadingManager: the transition guard\<close>

lemma showTransition_loading: "isLoading s \<Longrightarrow> showTransition s = s"
  by (simp add: showTransition_def)

lemma showTransition_absent: "pageTransition s = None \<Longrightarrow> showTransition s = s"
  by (simp add: showTransition_def)

lemma hideLoader_absent: "pageLoader s = None \<Longrightarrow> hideLoader s = s"
  by (simp add: hideLoader_def)

lemma hideTransition_absent: "pageTransition s = None \<Longrightarrow> hideTransition s = s"
  by (simp add: hideTransition_def)

text \<open>
  C4 (two calls of \<open>showTransition\<close> in immediate succession show the overlay
  once). The second call returns the state of the first unchanged, whatever the
  starting state; a call while \<open>isLoading\<close> is true changes nothing; and from an
  idle manager with its overlay the first call sets \<open>isLoading\<close> and adds
  \<open>active\<close>, and the two calls together add to the overlay exactly once.
\<close>

theorem showTransition_twice:
  "showTransition (showTransition s) = showTransition s \<and>
   (isLoading s \<longrightarrow> showTransition s = s) \<and>
   (\<not> isLoading s \<and> pageTransition s = Some t \<longrightarrow>
      isLoading (showTransition s) \<and>
      pageTransition (showTransition s) =
        Some (t\<lparr>classList := classList_add (classList t) ''active''\<rparr>) \<and>
      overlayShows (showTransition s) = Suc (overlayShows s) \<and>
      overlayShows (showTransition (showTransition s)) = Suc (overlayShows s))"
  by (simp add: showTransition_def split: option.splits)

theorem showTransition_twice_witness:
  "\<not> isLoading demoLoading \<and>
   pageTransition demoLoading = Some \<lparr>classList = [''page-transition'']\<rparr> \<and>
   isLoading (showTransition demoLoading) \<and>
   pageTransition (showTransition demoLoading) =
     Some \<lparr>classList = [''page-transition'', ''active'']\<rparr> \<and>
   showTransition (showTransition demoLoading) = showTransition demoLoading \<and>
   overlayShows (showTransition (showTransition demoLoading)) = 1"
proof -
  have h: "\<not> isLoading demoLoading"
    "pageTransition demoLoading = Some \<lparr>classList = [''page-transition'']\<rparr>"
    "overlayShows demoLoading = 0"
    by (simp_all add: demoLoading_def)
  note t = showTransition_twice [of demoLoading "\<lparr>classList = [''page-transition'']\<rparr>"]
  from t h have "isLoading (showTransition demoLoading)" by blast
  moreover from t h have "pageTransition (showTransition demoLoading) =
     Some \<lparr>classList = [''page-transition'', ''active'']\<rparr>"
    by (simp add: classList_add_def)
  moreover from t have "showTransition (showTransition demoLoading) = showTransition demoLoading"
    by blast
  moreover from t h have "overlayShows (showTransition (showTransition demoLoading)) = 1"
    by simp
  ultimately show ?thesis using h by blast
qed

section \<open>LoadingManager: link interception\<close>

lemma startsWith_iff: "startsWith s p = (\<exists>r. s = p @ r)"
  unfolding startsWith_def by (metis append_take_drop_id append_eq_conv_conj)

lemma http_not_mailto: "startsWith u ''http'' \<Longrightarrow> \<not> startsWith u ''mailto:''"
  by (auto simp add: startsWith_iff)

text \<open>What an intercepted click leaves behind: the default navigation suppressed,
  the overlay shown, the navigation scheduled after 600 milliseconds.\<close>

lemma external_link_intercepted:
  assumes "hrefAttr a = Some h" and "startsWith h ''http''" and "startsWith (href a) ''http''"
    and "linkTarget a \<noteq> ''_blank''"
  shows "clickAnchor a s =
     \<lparr>defaultPrevented = True,
      manager = (showTransition s)\<lparr>timers := timers (showTransition s) @ [(600, Navigate (href a))]\<rparr>\<rparr>"
proof -
  from assms(3) have "\<not> startsWith (href a) ''mailto:''"
    by (rule http_not_mailto)
  with assms show ?thesis
    by (simp add: clickAnchor_def matchesExternalSelector_def externalClickListener_def
        htmlListenerAdded_def interceptClick_def)
qed

lemma blank_target_not_intercepted:
  assumes "hrefAttr a = Some h" and "startsWith h ''http''" and "startsWith (href a) ''http''"
    and "linkTarget a = ''_blank''"
  shows "clickAnchor a s = \<lparr>defaultPrevented = False, manager = s\<rparr>"
  using assms
  by (simp add: clickAnchor_def matchesExternalSelector_def externalClickListener_def
      htmlListenerAdded_def)

lemma mailto_not_intercepted:
  assumes "hrefAttr a = Some h" and "startsWith h ''mailto:''" and "href a = h"
    and "\<not> endsWith h ''.html''"
  shows "clickAnchor a s = \<lparr>defaultPrevented = False, manager = s\<rparr>"
  using assms
  by (simp add: clickAnchor_def matchesExternalSelector_def externalClickListener_def
      htmlListenerAdded_def matchesHtmlSelector_def)

lemma same_page_anchor_not_intercepted:
  assumes "hrefAttr a = Some (CHR ''#'' # h)" and "str_includes (href a) ''#''"
  shows "clickAnchor a s = \<lparr>defaultPrevented = False, manager = s\<rparr>"
  using assms
  by (simp add: clickAnchor_def matchesExternalSelector_def htmlListenerAdded_def
      startsWith_def)

text \<open>The second loop tests the resolved URL \<open>link.href\<close>, not the attribute. On a
  page served over http or https every resolved URL of a relative link starts with
  \<open>http\<close>, and the listener is never added.\<close>

lemma relative_html_link_over_http:
  assumes "hrefAttr a = Some h" and "\<not> startsWith h ''http''" and "\<not> startsWith h ''mailto:''"
    and "startsWith (href a) ''http''"
  shows "clickAnchor a s = \<lparr>defaultPrevented = False, manager = s\<rparr>"
  using assms
  by (simp add: clickAnchor_def matchesExternalSelector_def htmlListenerAdded_def)

text \<open>Opened from the file system, the same link is intercepted.\<close>

lemma relative_html_link_over_file:
  "clickAnchor \<lparr>hrefAttr = Some ''sonora/index.html'',
                href = ''file:///site/sonora/index.html'', linkTarget = []\<rparr> demoLoading =
     \<lparr>defaultPrevented = True,
      manager = (showTransition demoLoading)
        \<lparr>timers := [(600, Navigate ''file:///site/sonora/index.html'')]\<rparr>\<rparr>"
  by (simp add: clickAnchor_def matchesExternalSelector_def htmlListenerAdded_def
      matchesHtmlSelector_def interceptClick_def startsWith_def endsWith_def
      showTransition_def demoLoading_def)

text \<open>
  C7 (a click on an anchor to an absolute http(s) URL or to a relative \<open>.html\<close>
  page is intercepted: default suppressed, overlay shown, navigation after 600 ms).
  The absolute case holds (\<open>external_link_intercepted\<close>), and the excluded classes
  are left alone. The relative case fails on the published site: the anchor
  \<open>sonora/index.html\<close> on \<open>https://samuelkahessay.github.io/\<close> has a resolved
  \<open>href\<close> that starts with \<open>http\<close>, so the second loop adds no listener; the
  click is not suppressed, the overlay is not shown, nothing is scheduled.
\<close>

theorem relative_html_link_not_intercepted:
  "clickAnchor \<lparr>hrefAttr = Some ''sonora/index.html'',
                href = ''https://samuelkahessay.github.io/sonora/index.html'',
                linkTarget = []\<rparr> demoLoading =
     \<lparr>defaultPrevented = False, manager = demoLoading\<rparr>"
  by (rule relative_html_link_over_http [where h = "''sonora/index.html''"])
     (simp_all add: startsWith_def)

section \<open>Absent DOM elements\<close>

lemma openMobileMenu_absent:
  "mobileMenuToggle s = None \<or> mobileNav s = None \<Longrightarrow> openMobileMenu s = s"
  by (auto simp add: openMobileMenu_def split: option.splits)

lemma closeMobileMenu_absent:
  "mobileMenuToggle s = None \<or> mobileNav s = None \<Longrightarrow> closeMobileMenu s = s"
  by (auto simp add: closeMobileMenu_def split: option.splits)

lemma updateThemeIcon_absent: "themeIcon s = None \<Longrightarrow> updateThemeIcon theme s = s"
  by (simp add: updateThemeIcon_def)

text \<open>The four operations the claim C8 names are skipped when their element is
  absent: the state, with its timers, is returned unchanged.\<close>

lemma named_operations_skipped:
  "pageLoader l = None \<Longrightarrow> hideLoader l = l"
  "pageTransition l = None \<Longrightarrow> showTransition l = l"
  "themeIcon t = None \<Longrightarrow> updateThemeIcon theme t = t"
  "scrollProgress n = None \<Longrightarrow> scrollEvent w n = n"
  by (simp_all add: hideLoader_absent showTransition_absent updateThemeIcon_absent
      scrollEvent_absent)

lemma documentClick_no_toggle: "mobileMenuToggle s = None \<Longrightarrow> documentClick inside s = Inr s"
  by (simp add: documentClick_def)

lemma documentClick_with_header:
  "mobileMenuToggle s = Some t \<Longrightarrow> header s = Some h \<Longrightarrow>
   documentClick inside s = Inr (if inside then s else closeMobileMenu s)"
  by (simp add: documentClick_def outsideClickListener_def)

text \<open>
  C8 (an operation whose DOM element is absent is skipped silently: no throw, no
  side effect). The policy holds for the operations above. It is broken by the
  document click listener of \<open>initMobileMenu\<close>: on a page that has the toggle button
  but no \<open>.header\<close>, any click dereferences the missing header and the listener
  throws. The scroll listener and the smooth-scrolling listener of the same class
  do test \<open>this.header\<close> first.
\<close>

theorem outside_click_without_header_throws:
  "documentClick False headerlessNav = Inl TypeError"
  by (simp add: documentClick_def outsideClickListener_def headerlessNav_def demoNav_def)

section \<open>ThemeManager\<close>

lemma toggleTheme_fields:
  "dataTheme (toggleTheme s) = Some (if dataTheme s = Some ''dark'' then ''light'' else ''dark'')"
  "storedTheme (toggleTheme s) = Some (if dataTheme s = Some ''dark'' then ''light'' else ''dark'')"
  "dispatched (toggleTheme s) =
     dispatched s @ [if dataTheme s = Some ''dark'' then ''light'' else ''dark'']"
  "themeIcon (toggleTheme s) =
     map_option (\<lambda>i. if dataTheme s = Some ''dark'' then MoonEmoji else SunEmoji) (themeIcon s)"
  by (simp_all add: toggleTheme_def setTheme_def updateThemeIcon_def Let_def
      split: option.splits)

text \<open>
  C9 (from light or dark, two toggles restore the theme). One toggle writes the
  other theme to the attribute and to the stored key and dispatches it; the second
  writes the original theme back to both and dispatches it. When the stored key
  and the icon agreed with the attribute at the start, the whole state is restored
  but for the two dispatched events.
\<close>

theorem toggleTheme_twice:
  assumes "dataTheme s = Some t" and "t = ''light'' \<or> t = ''dark''"
  shows "dataTheme (toggleTheme s) = Some (if t = ''light'' then ''dark'' else ''light'') \<and>
         storedTheme (toggleTheme s) = Some (if t = ''light'' then ''dark'' else ''light'') \<and>
         dispatched (toggleTheme s) =
           dispatched s @ [if t = ''light'' then ''dark'' else ''light''] \<and>
         dataTheme (toggleTheme (toggleTheme s)) = Some t \<and>
         storedTheme (toggleTheme (toggleTheme s)) = Some t \<and>
         dispatched (toggleTheme (toggleTheme s)) =
           dispatched s @ [if t = ''light'' then ''dark'' else ''light'', t] \<and>
         getCurrentTheme (toggleTheme (toggleTheme s)) = getCurrentTheme s \<and>
         (storedTheme s = Some t \<and>
          themeIcon s = Some (if t = ''dark'' then SunEmoji else MoonEmoji) \<longrightarrow>
            toggleTheme (toggleTheme s) =
              s\<lparr>dispatched := dispatched s @ [if t = ''light'' then ''dark'' else ''light'', t]\<rparr>)"
  using assms
  by (auto simp add: toggleTheme_def setTheme_def updateThemeIcon_def getCurrentTheme_def Let_def
      split: option.splits)

theorem toggleTheme_twice_witness:
  "dataTheme demoTheme = Some ''light'' \<and>
   dataTheme (toggleTheme demoTheme) = Some ''dark'' \<and>
   storedTheme (toggleTheme demoTheme) = Some ''dark'' \<and>
   dataTheme (toggleTheme (toggleTheme demoTheme)) = Some ''light'' \<and>
   storedTheme (toggleTheme (toggleTheme demoTheme)) = Some ''light'' \<and>
   dispatched (toggleTheme (toggleTheme demoTheme)) = [''dark'', ''light''] \<and>
   toggleTheme (toggleTheme (demoTheme\<lparr>storedTheme := Some ''light''\<rparr>)) =
     demoTheme\<lparr>storedTheme := Some ''light'', dispatched := [''dark'', ''light'']\<rparr>"
proof -
  have h: "dataTheme demoTheme = Some ''light''" "dispatched demoTheme = []"
    by (simp_all add: demoTheme_def)
  have k: "dataTheme (demoTheme\<lparr>storedTheme := Some ''light''\<rparr>) = Some ''light''"
    "storedTheme (demoTheme\<lparr>storedTheme := Some ''light''\<rparr>) = Some ''light''"
    "themeIcon (demoTheme\<lparr>storedTheme := Some ''light''\<rparr>) = Some MoonEmoji"
    "dispatched (demoTheme\<lparr>storedTheme := Some ''light''\<rparr>) = []"
    by (simp_all add: demoTheme_def)
  note a = toggleTheme_twice [OF h(1)]
  note b = toggleTheme_twice [OF k(1)]
  from a h have "dataTheme (toggleTheme demoTheme) = Some ''dark''"
    and "storedTheme (toggleTheme demoTheme) = Some ''dark''"
    and "dataTheme (toggleTheme (toggleTheme demoTheme)) = Some ''light''"
    and "storedTheme (toggleTheme (toggleTheme demoTheme)) = Some ''light''"
    and "dispatched (toggleTheme (toggleTheme demoTheme)) = [''dark'', ''light'']"
    by simp_all
  moreover from b k have "toggleTheme (toggleTheme (demoTheme\<lparr>storedTheme := Some ''light''\<rparr>)) =
     demoTheme\<lparr>storedTheme := Some ''light'', dispatched := [''dark'', ''light'']\<rparr>"
    by simp
  ultimately show ?thesis using h by blast
qed

end
